theory Spec2Isabelle
  imports Main "HOL-Library.Sublist"
begin

section \<open>Data model of the unit-testing phase\<close>

text \<open>
  The statuses of \<^verbatim>\<open>schemathesis.runner.Status\<close>. The enum itself is declared outside
  the files at hand; its members are the four the coordinator names.
\<close>

datatype Status = SUCCESS | FAILURE | ERROR | INTERRUPTED

text \<open>
  Modelled from the spec: the severity order of the statuses,
  INTERRUPTED > ERROR > FAILURE > SUCCESS (the code never compares two statuses;
  the order is only used to state properties of the aggregate).
\<close>

fun severity :: "Status \<Rightarrow> nat" where
  "severity SUCCESS = 0"
| "severity FAILURE = 1"
| "severity ERROR = 2"
| "severity INTERRUPTED = 3"

datatype PhaseName = PROBING | UNIT_TESTING | STATEFUL_TESTING

datatype Phase = Phase (name: PhaseName)

type_synonym uuid = nat

text \<open>
  A per-operation schema error as \<^verbatim>\<open>worker_task\<close> reads it: \<^verbatim>\<open>error.method\<close>
  (the field \<open>http_method\<close>) and \<^verbatim>\<open>error.full_path\<close> are both optional strings.
\<close>

record SchemaError =
  http_method :: "string option"
  full_path :: "string option"

datatype exn =
    KeyboardInterrupt
  | AssertionError
  | InvalidSchema SchemaError
  | Exception string

text \<open>
  \<^verbatim>\<open>ScenarioRecorder(label=...)\<close> creates a recorder with the given label and no
  recorded case yet; the entries are kept as an opaque list of identifiers.
\<close>

record ScenarioRecorder =
  label :: string
  cases :: "uuid list"

definition new_recorder :: "string \<Rightarrow> ScenarioRecorder" where
  "new_recorder l = \<lparr>label = l, cases = []\<rparr>"

text \<open>
  The events of \<^verbatim>\<open>schemathesis.runner.events\<close>, with the fields the phase passes to
  their constructors, in the order of the keyword arguments:
  \<^item> \<open>SuiteStarted id phase\<close>
  \<^item> \<open>ScenarioStarted id label phase suite_id\<close>
  \<^item> \<open>ScenarioFinished id suite_id phase status recorder elapsed_time skip_reason is_final\<close>
  \<^item> \<open>NonFatalError error phase label related_to_operation\<close>
  \<^item> \<open>Interrupted phase\<close>
  \<^item> \<open>SuiteFinished id phase status\<close>
  \<^item> \<open>PhaseFinished phase status\<close>

  Event identifiers are fresh UUIDs in the code; here they are natural numbers handed in
  by the caller. \<open>elapsed_time\<close> is a number of milliseconds.
\<close>

datatype event =
    SuiteStarted uuid PhaseName
  | ScenarioStarted uuid string PhaseName uuid
  | ScenarioFinished uuid uuid PhaseName Status ScenarioRecorder nat "string option" bool
  | NonFatalError exn PhaseName string bool
  | Interrupted PhaseName
  | SuiteFinished uuid PhaseName Status
  | PhaseFinished Phase Status

fun is_NonFatalError :: "event \<Rightarrow> bool" where
  "is_NonFatalError (NonFatalError _ _ _ _) = True"
| "is_NonFatalError _ = False"

fun is_ScenarioStarted :: "event \<Rightarrow> bool" where
  "is_ScenarioStarted (ScenarioStarted _ _ _ _) = True"
| "is_ScenarioStarted _ = False"

fun is_ScenarioFinished :: "event \<Rightarrow> bool" where
  "is_ScenarioFinished (ScenarioFinished _ _ _ _ _ _ _ _) = True"
| "is_ScenarioFinished _ = False"

fun is_Interrupted :: "event \<Rightarrow> bool" where
  "is_Interrupted (Interrupted _) = True"
| "is_Interrupted _ = False"

fun is_SuiteStarted :: "event \<Rightarrow> bool" where
  "is_SuiteStarted (SuiteStarted _ _) = True"
| "is_SuiteStarted _ = False"

fun is_SuiteFinished :: "event \<Rightarrow> bool" where
  "is_SuiteFinished (SuiteFinished _ _ _) = True"
| "is_SuiteFinished _ = False"

fun is_PhaseFinished :: "event \<Rightarrow> bool" where
  "is_PhaseFinished (PhaseFinished _ _) = True"
| "is_PhaseFinished _ = False"

section \<open>The coordinator: \<^verbatim>\<open>execute\<close>\<close>

text \<open>
  Lines 58 to 68 of \<^verbatim>\<open>execute\<close>: the three updates of the local \<^verbatim>\<open>status\<close> after an
  event has been yielded. \<open>is_interrupted\<close> is what \<^verbatim>\<open>engine.is_interrupted\<close> returns at
  line 67.
\<close>

definition update_status :: "Status \<Rightarrow> event \<Rightarrow> bool \<Rightarrow> Status" where
  "update_status status event is_interrupted =
     (let status1 = (if is_NonFatalError event then ERROR else status);
          status2 = (case event of
                       ScenarioFinished _ _ _ event_status _ _ _ _ \<Rightarrow>
                         if status1 \<notin> {ERROR, INTERRUPTED}
                            \<and> event_status \<in> {FAILURE, ERROR, INTERRUPTED}
                         then event_status else status1
                     | _ \<Rightarrow> status1)
      in if is_interrupted then INTERRUPTED else status2)"

text \<open>
  What one pass through the \<^verbatim>\<open>while True\<close> loop observes:
  \<^item> \<open>Got event stopped_54 interrupted_67 stopped_69\<close>: \<^verbatim>\<open>events_queue.get\<close> returned
    \<open>event\<close>; the three flags are the values of \<^verbatim>\<open>engine.is_stopped\<close> at line 54,
    \<^verbatim>\<open>engine.is_interrupted\<close> at line 67 and \<^verbatim>\<open>engine.is_stopped\<close> at line 69
    (the engine and its \<^verbatim>\<open>on_event\<close> are outside the files at hand, so what they answer
    is an input);
  \<^item> \<open>Empty alive\<close>: the \<^verbatim>\<open>get\<close> timed out with \<^verbatim>\<open>queue.Empty\<close>; \<open>alive\<close> holds
    \<^verbatim>\<open>worker.is_alive()\<close> for each worker of the pool, one flag per worker;
  \<^item> \<open>Signal\<close>: a \<^verbatim>\<open>KeyboardInterrupt\<close> is raised while the coordinator waits in
    \<^verbatim>\<open>get\<close>.
\<close>

datatype poll =
    Got event bool bool bool
  | Empty "bool list"
  | Signal

text \<open>
  The loop of lines 51 to 78. The result is the final \<^verbatim>\<open>status\<close> and the events yielded
  by the loop, or \<open>None\<close> when the observations run out before the loop has left: the
  loop has no bound of its own.
\<close>

fun event_loop :: "poll list \<Rightarrow> Status \<Rightarrow> (Status \<times> event list) option" where
  "event_loop [] status = None"
| "event_loop (Got event stopped_54 interrupted_67 stopped_69 # polls) status =
     (if stopped_54 then Some (status, [])
      else
        let status' = update_status status event interrupted_67 in
        if stopped_69 then Some (status', [event])
        else map_option (\<lambda>(s, evs). (s, event # evs)) (event_loop polls status'))"
| "event_loop (Empty alive # polls) status =
     (if list_all (\<lambda>a. \<not> a) alive then Some (status, [])
      else event_loop polls status)"
| "event_loop (Signal # polls) status = Some (INTERRUPTED, [Interrupted UNIT_TESTING])"

text \<open>
  \<^verbatim>\<open>execute\<close>: \<open>SuiteStarted\<close> first, the loop, then \<open>SuiteFinished\<close> and \<open>PhaseFinished\<close>
  with the loop's final status. \<open>suite_id\<close> is the identifier of the \<open>SuiteStarted\<close>
  event.
\<close>

definition execute :: "uuid \<Rightarrow> Phase \<Rightarrow> poll list \<Rightarrow> event list option" where
  "execute suite_id phase polls =
     (case event_loop polls SUCCESS of
        None \<Rightarrow> None
      | Some (status, evs) \<Rightarrow>
          Some (SuiteStarted suite_id (name phase) # evs
                @ [SuiteFinished suite_id (name phase) status, PhaseFinished phase status]))"

text \<open>The final aggregate status of a run, for stating properties of it.\<close>

definition final_status :: "poll list \<Rightarrow> Status option" where
  "final_status polls = map_option fst (event_loop polls SUCCESS)"

text \<open>
  The status an observed event contributes to the aggregate in the words of the
  specification: a NonFatalError counts as ERROR, a ScenarioFinished as the status it
  carries, any other event as nothing.
\<close>

fun status_of_event :: "event \<Rightarrow> Status option" where
  "status_of_event (NonFatalError _ _ _ _) = Some ERROR"
| "status_of_event (ScenarioFinished _ _ _ s _ _ _ _) = Some s"
| "status_of_event _ = None"

definition max_status :: "Status \<Rightarrow> Status \<Rightarrow> Status" where
  "max_status a b = (if severity a < severity b then b else a)"

fun max_severity :: "event list \<Rightarrow> Status" where
  "max_severity [] = SUCCESS"
| "max_severity (e # evs) =
     (case status_of_event e of
        None \<Rightarrow> max_severity evs
      | Some s \<Rightarrow> max_status s (max_severity evs))"

text \<open>
  Runs without an interruption: no signal, \<^verbatim>\<open>engine.is_interrupted\<close> never read as set,
  and no scenario that finished as INTERRUPTED.
\<close>

fun no_interrupt :: "poll \<Rightarrow> bool" where
  "no_interrupt (Got event _ interrupted_67 _) =
     (\<not> interrupted_67 \<and> status_of_event event \<noteq> Some INTERRUPTED)"
| "no_interrupt (Empty _) = True"
| "no_interrupt Signal = False"

text \<open>The passes through the loop that leave it: one of the three \<^verbatim>\<open>break\<close>s, or the signal.\<close>

fun exits :: "poll \<Rightarrow> bool" where
  "exits (Got event stopped_54 interrupted_67 stopped_69) = (stopped_54 \<or> stopped_69)"
| "exits (Empty alive) = list_all (\<lambda>a. \<not> a) alive"
| "exits Signal = True"

text \<open>
  What workers put on the queue: \<^verbatim>\<open>worker_task\<close> itself puts ScenarioStarted,
  NonFatalError, ScenarioFinished and Interrupted events, and forwards what \<^verbatim>\<open>run_test\<close>
  yields; \<^verbatim>\<open>run_test\<close> is outside the files at hand and is taken to yield events of
  the same four kinds.
\<close>

fun from_worker :: "poll \<Rightarrow> bool" where
  "from_worker (Got event _ _ _) =
     (is_ScenarioStarted event \<or> is_ScenarioFinished event
      \<or> is_NonFatalError event \<or> is_Interrupted event)"
| "from_worker _ = True"

text \<open>The events taken off the queue by a sequence of passes.\<close>

fun dequeued :: "poll list \<Rightarrow> event list" where
  "dequeued [] = []"
| "dequeued (Got event _ _ _ # polls) = event # dequeued polls"
| "dequeued (_ # polls) = dequeued polls"

subsection \<open>The queue and the stop flag around the coordinator\<close>

text \<open>
  The shared state the coordinator reads: the FIFO \<^verbatim>\<open>events_queue\<close>, the stop flag of
  the engine, and the liveness of the worker threads. Other threads act on it between
  two passes of the loop; \<open>observe\<close> turns such a history into what the coordinator
  observes in its passes (\<^verbatim>\<open>engine.is_interrupted\<close> is never set in these histories).
\<close>

record env =
  events_queue :: "event list"
  is_stopped :: bool
  workers_alive :: "bool list"

datatype action = WorkerPut event | WorkerExit nat | EngineStop | CoordinatorPoll

fun observe :: "action list \<Rightarrow> env \<Rightarrow> poll list" where
  "observe [] env = []"
| "observe (WorkerPut e # acts) env =
     observe acts (env\<lparr>events_queue := events_queue env @ [e]\<rparr>)"
| "observe (WorkerExit i # acts) env =
     observe acts (env\<lparr>workers_alive := (workers_alive env)[i := False]\<rparr>)"
| "observe (EngineStop # acts) env = observe acts (env\<lparr>is_stopped := True\<rparr>)"
| "observe (CoordinatorPoll # acts) env =
     (case events_queue env of
        [] \<Rightarrow> Empty (workers_alive env) # observe acts env
      | e # q \<Rightarrow> Got e (is_stopped env) False (is_stopped env)
                 # observe acts (env\<lparr>events_queue := q\<rparr>))"

text \<open>The events put on the queue before the stop flag is set.\<close>

fun put_before_stop :: "action list \<Rightarrow> event list" where
  "put_before_stop [] = []"
| "put_before_stop (WorkerPut e # acts) = e # put_before_stop acts"
| "put_before_stop (EngineStop # acts) = []"
| "put_before_stop (_ # acts) = put_before_stop acts"

section \<open>The worker: \<^verbatim>\<open>worker_task\<close>\<close>

text \<open>What \<^verbatim>\<open>producer.next_operation()\<close> hands out: an operation or its schema error.\<close>

datatype 'op result = Ok 'op | Err SchemaError

text \<open>
  One pass through the worker's \<^verbatim>\<open>while not ctx.is_stopped\<close> loop that pulls an item:
  \<^item> \<open>stopped_at_check\<close>: the value of \<^verbatim>\<open>ctx.is_stopped\<close> read by the loop condition
    (line 95);
  \<^item> \<open>stopped_at_pull\<close>: the state of the flag when \<^verbatim>\<open>producer.next_operation()\<close> is
    called on the next line; the worker does not read the flag there, the field only
    records what another thread may have done in between;
  \<^item> \<open>pulled\<close>: the item returned.
  The list of passes ends when \<^verbatim>\<open>next_operation\<close> returns \<^verbatim>\<open>None\<close>.
\<close>

record 'op pull =
  stopped_at_check :: bool
  stopped_at_pull :: bool
  pulled :: "'op result"

text \<open>\<^verbatim>\<open>str.upper\<close> on ASCII text.\<close>

definition upper_char :: "char \<Rightarrow> char" where
  "upper_char c =
     (if 97 \<le> (of_char c :: nat) \<and> (of_char c :: nat) \<le> 122
      then char_of ((of_char c :: nat) - 32) else c)"

definition upper :: "string \<Rightarrow> string" where
  "upper s = map upper_char s"

text \<open>An optional string inside an f-string: \<^verbatim>\<open>None\<close> prints as its name.\<close>

fun format_optional :: "string option \<Rightarrow> string" where
  "format_optional None = ''None''"
| "format_optional (Some s) = s"

text \<open>
  Lines 120 to 155, the branch for a schema error: the events put on the queue, or the
  \<^verbatim>\<open>AssertionError\<close> of line 147. \<^verbatim>\<open>if error.method\<close> is Python truthiness: \<^verbatim>\<open>None\<close> and
  the empty string both take the \<^verbatim>\<open>else\<close> branch. \<open>fresh\<close> is the identifier of the new
  ScenarioStarted event.
\<close>

definition on_schema_error :: "uuid \<Rightarrow> uuid \<Rightarrow> SchemaError \<Rightarrow> exn + event list" where
  "on_schema_error suite_id fresh error =
     (case http_method error of
        Some m \<Rightarrow>
          if m \<noteq> [] then
            let label = upper m @ '' '' @ format_optional (full_path error) in
            Inr [ScenarioStarted fresh label UNIT_TESTING suite_id,
                 NonFatalError (InvalidSchema error) UNIT_TESTING label True,
                 ScenarioFinished fresh suite_id UNIT_TESTING ERROR (new_recorder ''Error'')
                   0 None True]
          else (case full_path error of
                  None \<Rightarrow> Inl AssertionError
                | Some p \<Rightarrow> Inr [NonFatalError (InvalidSchema error) UNIT_TESTING p False])
      | None \<Rightarrow>
          (case full_path error of
             None \<Rightarrow> Inl AssertionError
           | Some p \<Rightarrow> Inr [NonFatalError (InvalidSchema error) UNIT_TESTING p False]))"

text \<open>
  The loop of lines 95 to 155. \<open>create_test\<close> and \<open>run_test\<close> are the two collaborators
  called for an operation: \<open>create_test operation\<close> is the exception raised while the
  test function is built (\<^verbatim>\<open>get_strategy_kwargs\<close> only collects its keyword arguments),
  if any; \<open>run_test operation\<close> is the events its generator yields and the exception
  that ends it, if any. The result is the events put on the queue and the exception
  that leaves the loop, if any.
\<close>

fun worker_loop ::
  "('op \<Rightarrow> exn option) \<Rightarrow> ('op \<Rightarrow> event list \<times> exn option) \<Rightarrow> uuid \<Rightarrow> uuid
     \<Rightarrow> 'op pull list \<Rightarrow> event list \<times> exn option" where
  "worker_loop create_test run_test suite_id fresh [] = ([], None)"
| "worker_loop create_test run_test suite_id fresh (p # ps) =
     (if stopped_at_check p then ([], None)
      else
        case pulled p of
          Ok operation \<Rightarrow>
            (case create_test operation of
               Some e \<Rightarrow> ([], Some e)
             | None \<Rightarrow>
                 (case run_test operation of
                    (evs, Some e) \<Rightarrow> (evs, Some e)
                  | (evs, None) \<Rightarrow>
                      (case worker_loop create_test run_test suite_id fresh ps of
                         (rest, r) \<Rightarrow> (evs @ rest, r))))
        | Err error \<Rightarrow>
            (case on_schema_error suite_id fresh error of
               Inl e \<Rightarrow> ([], Some e)
             | Inr evs \<Rightarrow>
                 (case worker_loop create_test run_test suite_id (Suc fresh) ps of
                    (rest, r) \<Rightarrow> (evs @ rest, r))))"

text \<open>
  \<^verbatim>\<open>worker_task\<close>: the loop inside \<^verbatim>\<open>try ... except KeyboardInterrupt\<close>. The second
  component is the exception that leaves the worker, if any.
\<close>

definition worker_task ::
  "('op \<Rightarrow> exn option) \<Rightarrow> ('op \<Rightarrow> event list \<times> exn option) \<Rightarrow> uuid \<Rightarrow> uuid
     \<Rightarrow> 'op pull list \<Rightarrow> event list \<times> exn option" where
  "worker_task create_test run_test suite_id fresh pulls =
     (case worker_loop create_test run_test suite_id fresh pulls of
        (evs, Some KeyboardInterrupt) \<Rightarrow> (evs @ [Interrupted UNIT_TESTING], None)
      | (evs, r) \<Rightarrow> (evs, r))"

section \<open>The task producer\<close>

text \<open>
  Modelled from the spec: the Task Producer (\<^verbatim>\<open>TaskProducer\<close> of the module \<^verbatim>\<open>_pool\<close>,
  which is not among the files at hand; \<^verbatim>\<open>worker_task\<close> only calls its
  \<^verbatim>\<open>next_operation\<close>). It is a cursor over the finite sequence of operations; a call
  advances the cursor inside the producer's exclusive section, so a call is one atomic
  step: it returns the item under the cursor, or nothing once the sequence is
  exhausted. The state is the rest of the sequence.
\<close>

definition next_operation :: "'a list \<Rightarrow> 'a option \<times> 'a list" where
  "next_operation operations =
     (case operations of [] \<Rightarrow> (None, []) | x # rest \<Rightarrow> (Some x, rest))"

text \<open>
  Modelled from the spec: concurrent calls of the workers. The exclusive section puts
  the calls in some order; an interleaving is the list of the callers in that order,
  and \<open>deliveries\<close> gives what each call returns.
\<close>

fun deliveries :: "'w list \<Rightarrow> 'a list \<Rightarrow> ('w \<times> 'a option) list" where
  "deliveries [] operations = []"
| "deliveries (w # ws) operations =
     (case next_operation operations of (r, rest) \<Rightarrow> (w, r) # deliveries ws rest)"

section \<open>The resource path matcher\<close>

text \<open>
  Modelled from the spec: a bound value of a path variable (\<^verbatim>\<open>ResourcePath\<close> and
  \<^verbatim>\<open>_is_prefix_operation\<close> live in \<^verbatim>\<open>schemathesis.specs.openapi.checks\<close>, which is not
  among the files at hand; only their test is). The test binds strings and integers.
\<close>

datatype bound_value = IntValue int | StrValue string

text \<open>Modelled from the spec: the string form of a value, decimal for an integer.\<close>

definition digit_char :: "nat \<Rightarrow> char" where
  "digit_char d = char_of (48 + d)"

function str_of_nat :: "nat \<Rightarrow> string" where
  "str_of_nat n =
     (if n < 10 then [digit_char n] else str_of_nat (n div 10) @ [digit_char (n mod 10)])"
  by pat_completeness auto
termination
  by (relation "measure id") auto

declare str_of_nat.simps [simp del]

definition str_of_int :: "int \<Rightarrow> string" where
  "str_of_int i = (if i < 0 then CHR ''-'' # str_of_nat (nat (- i)) else str_of_nat (nat i))"

fun str_of_value :: "bound_value \<Rightarrow> string" where
  "str_of_value (IntValue i) = str_of_int i"
| "str_of_value (StrValue s) = s"

text \<open>
  Modelled from the spec: a resource path is a path template plus a mapping from
  variable name to bound value.
\<close>

record ResourcePath =
  template :: string
  variables :: "(string \<times> bound_value) list"

text \<open>
  Modelled from the spec, step 1 of the algorithm: strip one trailing slash; repeated
  slashes are not collapsed further. The empty path and the path \<open>''/''\<close> both become
  the empty path.
\<close>

definition strip_trailing_slash :: "string \<Rightarrow> string" where
  "strip_trailing_slash s = (if s \<noteq> [] \<and> last s = CHR ''/'' then butlast s else s)"

text \<open>
  Modelled from the spec, step 2: split the path into segments at the slashes, and
  replace each placeholder segment \<open>{name}\<close> by the string form of the value bound to
  \<open>name\<close>. The spec does not say what an unbound placeholder resolves to; it is left
  as it stands.
\<close>

fun split_on :: "char \<Rightarrow> string \<Rightarrow> string list" where
  "split_on sep [] = [[]]"
| "split_on sep (c # cs) =
     (if c = sep then [] # split_on sep cs
      else case split_on sep cs of
             w # ws \<Rightarrow> (c # w) # ws
           | [] \<Rightarrow> [[c]])"

definition is_placeholder :: "string \<Rightarrow> bool" where
  "is_placeholder seg = (2 \<le> length seg \<and> hd seg = CHR ''{'' \<and> last seg = CHR ''}'')"

definition resolve_segment :: "(string \<times> bound_value) list \<Rightarrow> string \<Rightarrow> string" where
  "resolve_segment vars seg =
     (if is_placeholder seg then
        (case map_of vars (butlast (tl seg)) of
           Some v \<Rightarrow> str_of_value v
         | None \<Rightarrow> seg)
      else seg)"

definition resolve :: "ResourcePath \<Rightarrow> string list" where
  "resolve p =
     map (resolve_segment (variables p)) (split_on CHR ''/'' (strip_trailing_slash (template p)))"

text \<open>
  Modelled from the spec, step 3: two segments are equal when they match exactly, or
  one is the other with a trailing \<open>s\<close> added.
\<close>

definition segment_eq :: "string \<Rightarrow> string \<Rightarrow> bool" where
  "segment_eq a b = (a = b \<or> a = b @ ''s'' \<or> b = a @ ''s'')"

text \<open>
  Modelled from the spec, step 4: walk both segment sequences from the left; the left
  one is a prefix when it runs out first (or together with the right one) and no pair
  of segments differs on the way.
\<close>

fun segments_prefix :: "string list \<Rightarrow> string list \<Rightarrow> bool" where
  "segments_prefix [] rs = True"
| "segments_prefix (l # ls) [] = False"
| "segments_prefix (l # ls) (r # rs) = (segment_eq l r \<and> segments_prefix ls rs)"

definition is_prefix_operation :: "ResourcePath \<Rightarrow> ResourcePath \<Rightarrow> bool" where
  "is_prefix_operation lhs rhs = segments_prefix (resolve lhs) (resolve rhs)"

section \<open>The checks\<close>

datatype GenerationMode = POSITIVE | NEGATIVE

text \<open>
  Modelled from the spec: the structured failure a check raises (\<^verbatim>\<open>Failure\<close> of
  \<^verbatim>\<open>schemathesis.core.failures\<close>, not among the files at hand). The test reads its
  \<^verbatim>\<open>title\<close>.
\<close>

record Failure =
  title :: string
  message :: string

text \<open>
  Modelled from the spec: an allow-list entry against a response status. The entry is
  compared with the decimal form of the status position by position; an \<open>X\<close> in the
  entry stands for any digit. An exact code has no \<open>X\<close>; a wildcard class has them
  after its leading digits.
\<close>

definition entry_matches :: "string \<Rightarrow> nat \<Rightarrow> bool" where
  "entry_matches entry status_code =
     list_all2 (\<lambda>e c. e = CHR ''X'' \<or> e = c) entry (str_of_nat status_code)"

text \<open>
  Modelled from the spec: \<^verbatim>\<open>positive_data_acceptance\<close> (of
  \<^verbatim>\<open>schemathesis.specs.openapi.checks\<close>, not among the files at hand; only its test
  is). Its inputs are the configured allow-list, the status of the response and the
  generation mode of the case; it returns the failure it raises, if any. The title of
  the failure is the text the test looks for.
\<close>

definition positive_data_acceptance ::
  "string list \<Rightarrow> nat \<Rightarrow> GenerationMode \<Rightarrow> Failure option" where
  "positive_data_acceptance allowed_statuses status_code generation_mode =
     (if generation_mode = POSITIVE \<and> \<not> list_ex (\<lambda>entry. entry_matches entry status_code) allowed_statuses
      then Some \<lparr>title = ''Rejected positive data'',
                 message = ''Allowed statuses: '' @ concat (map (\<lambda>e. e @ '' '') allowed_statuses)\<rparr>
      else None)"

text \<open>
  Modelled from the spec: parameter values and the declared constraints on them. The
  spec names a minimum, a maximum and a type as declared constraints; the schema of the
  test declares integers with a minimum.
\<close>

datatype json = JInt int | JStr string | JBool bool

datatype json_type = TInteger | TString | TBoolean

record ParameterSchema =
  schema_type :: "json_type option"
  minimum :: "int option"
  maximum :: "int option"

fun has_type :: "json_type \<Rightarrow> json \<Rightarrow> bool" where
  "has_type TInteger (JInt _) = True"
| "has_type TString (JStr _) = True"
| "has_type TBoolean (JBool _) = True"
| "has_type _ _ = False"

definition satisfies :: "ParameterSchema \<Rightarrow> json \<Rightarrow> bool" where
  "satisfies s v =
     ((case schema_type s of None \<Rightarrow> True | Some t \<Rightarrow> has_type t v)
      \<and> (case (minimum s, v) of (Some m, JInt i) \<Rightarrow> m \<le> i | _ \<Rightarrow> True)
      \<and> (case (maximum s, v) of (Some m, JInt i) \<Rightarrow> i \<le> m | _ \<Rightarrow> True))"

text \<open>
  Modelled from the spec: one component of a case (query, headers, cookies, path
  parameters or body): the mode it was generated in (\<open>None\<close> when it was not generated
  at all), the parameters the operation declares for it, and its keys and values.
\<close>

record Component =
  mode :: "GenerationMode option"
  declared :: "(string \<times> ParameterSchema) list"
  container :: "(string \<times> json) list"

text \<open>
  Modelled from the spec: the two kinds of deviation of a component from its declared
  schema, a declared key whose value violates its constraints and a key that is not
  declared, and the components whose sole deviation is of the second kind.
\<close>

definition violates_declared :: "Component \<Rightarrow> bool" where
  "violates_declared c =
     list_ex (\<lambda>(k, v). case map_of (declared c) k of
                          Some s \<Rightarrow> \<not> satisfies s v
                        | None \<Rightarrow> False) (container c)"

definition has_extra_keys :: "Component \<Rightarrow> bool" where
  "has_extra_keys c = list_ex (\<lambda>(k, v). map_of (declared c) k = None) (container c)"

definition only_extra_keys :: "Component \<Rightarrow> bool" where
  "only_extra_keys c = (has_extra_keys c \<and> \<not> violates_declared c)"

record Case =
  query :: Component
  headers :: Component
  cookies :: Component
  path_parameters :: Component
  body :: Component

definition non_body_components :: "Case \<Rightarrow> Component list" where
  "non_body_components c = [query c, headers c, cookies c, path_parameters c]"

text \<open>
  Modelled from the spec: \<^verbatim>\<open>has_only_additional_properties_in_non_body_parameters\<close>
  (of \<^verbatim>\<open>schemathesis.specs.openapi.checks\<close>, not among the files at hand; only its test
  is). The non-body components are visited in turn; a component that was not generated
  in NEGATIVE mode is skipped; a negatively generated one whose deviation is not only
  extra keys ends the visit with false; the result is whether a negatively generated
  component was seen.
\<close>

fun scan_components :: "Component list \<Rightarrow> bool \<Rightarrow> bool" where
  "scan_components [] seen_negative = seen_negative"
| "scan_components (c # cs) seen_negative =
     (if mode c = Some NEGATIVE then
        (if only_extra_keys c then scan_components cs True else False)
      else scan_components cs seen_negative)"

definition has_only_additional_properties_in_non_body_parameters :: "Case \<Rightarrow> bool" where
  "has_only_additional_properties_in_non_body_parameters c =
     scan_components (non_body_components c) False"

text \<open>
  The fixture of the test: an operation that declares the query parameter \<open>key\<close> and
  the header \<open>X-Key\<close>, both integers with minimum 5, and a case for it with the given
  query (and its mode), headers (not generated) and mode of the body.
\<close>

definition integer_min5 :: ParameterSchema where
  "integer_min5 = \<lparr>schema_type = Some TInteger, minimum = Some 5, maximum = None\<rparr>"

definition sample_case ::
  "GenerationMode option \<Rightarrow> (string \<times> json) list \<Rightarrow> (string \<times> json) list
     \<Rightarrow> GenerationMode option \<Rightarrow> Case" where
  "sample_case query_mode query_value headers_value body_mode =
     \<lparr>query = \<lparr>mode = query_mode, declared = [(''key'', integer_min5)], container = query_value\<rparr>,
      headers = \<lparr>mode = None, declared = [(''X-Key'', integer_min5)], container = headers_value\<rparr>,
      cookies = \<lparr>mode = None, declared = [], container = []\<rparr>,
      path_parameters = \<lparr>mode = None, declared = [], container = []\<rparr>,
      body = \<lparr>mode = body_mode, declared = [], container = []\<rparr>\<rparr>"

section \<open>Properties of the coordinator\<close>

lemma max_status_simps [simp]:
  "max_status SUCCESS b = b" "max_status a SUCCESS = a"
  "max_status INTERRUPTED b = INTERRUPTED" "max_status a INTERRUPTED = INTERRUPTED"
  "max_status ERROR ERROR = ERROR" "max_status ERROR FAILURE = ERROR"
  "max_status FAILURE ERROR = ERROR" "max_status FAILURE FAILURE = FAILURE"
  by (cases a; cases b; simp add: max_status_def)+

lemma max_status_assoc: "max_status (max_status a b) c = max_status a (max_status b c)"
  by (cases a; cases b; cases c; simp)

lemma update_status_mono:
  "status \<noteq> INTERRUPTED \<or> is_interrupted \<or> \<not> is_NonFatalError event
   \<Longrightarrow> severity status \<le> severity (update_status status event is_interrupted)"
  by (cases event; cases status; auto simp: update_status_def)

lemma update_status_interrupted: "update_status status event True = INTERRUPTED"
  by (simp add: update_status_def Let_def)

lemma update_status_no_interrupt:
  assumes "status \<noteq> INTERRUPTED" and "status_of_event e \<noteq> Some INTERRUPTED"
  shows "update_status status e False
           = (case status_of_event e of None \<Rightarrow> status | Some s \<Rightarrow> max_status status s)
         \<and> update_status status e False \<noteq> INTERRUPTED"
proof (cases e)
  case (ScenarioFinished i sid ph st rec el sk fin)
  with assms show ?thesis
    by (cases st; cases status; simp add: update_status_def)
qed (use assms in \<open>cases status; simp add: update_status_def\<close>)+

lemma event_loop_max:
  "event_loop polls status = Some (st, evs) \<Longrightarrow> list_all no_interrupt polls
   \<Longrightarrow> status \<noteq> INTERRUPTED \<Longrightarrow> st = max_status status (max_severity evs)"
proof (induction polls status arbitrary: st evs rule: event_loop.induct)
  case (1 status)
  then show ?case by simp
next
  case (2 event s54 i67 s69 polls status)
  then show ?case
    using update_status_no_interrupt[of status event]
    by (auto split: if_splits option.splits simp: max_status_assoc Let_def)
next
  case (3 alive polls status)
  then show ?case by (auto split: if_splits)
next
  case (4 polls status)
  then show ?case by simp
qed

lemma event_loop_exits:
  "list_ex exits polls \<Longrightarrow> \<exists>st evs. event_loop polls status = Some (st, evs)"
proof (induction polls status rule: event_loop.induct)
  case (2 event s54 i67 s69 polls status)
  then show ?case by (auto simp: Let_def)
qed auto

lemma event_loop_runs_on: "\<not> list_ex exits polls \<Longrightarrow> event_loop polls status = None"
  by (induction polls status rule: event_loop.induct) (auto simp: Let_def)

lemma worker_event_kinds:
  "is_ScenarioStarted e \<or> is_ScenarioFinished e \<or> is_NonFatalError e \<or> is_Interrupted e
   \<Longrightarrow> \<not> is_SuiteStarted e \<and> \<not> is_SuiteFinished e \<and> \<not> is_PhaseFinished e"
  by (cases e) auto

lemma event_loop_from_worker:
  "event_loop polls status = Some (st, evs) \<Longrightarrow> list_all from_worker polls \<Longrightarrow>
     filter is_SuiteStarted evs = [] \<and> filter is_SuiteFinished evs = []
     \<and> filter is_PhaseFinished evs = []"
proof (induction polls status arbitrary: st evs rule: event_loop.induct)
  case (2 event s54 i67 s69 polls status)
  then show ?case using worker_event_kinds[of event]
    by (auto simp: Let_def split: if_splits)
qed (auto split: if_splits)

lemma event_loop_append:
  "list_all (\<lambda>p. \<not> exits p) pre \<Longrightarrow>
   event_loop (pre @ post) status =
     map_option (\<lambda>(s, evs). (s, dequeued pre @ evs))
       (event_loop post
          (foldl (\<lambda>s p. case p of Got e _ i _ \<Rightarrow> update_status s e i | _ \<Rightarrow> s) status pre))"
proof (induction pre status rule: event_loop.induct)
  case (1 status)
  then show ?case by (simp add: option.map_ident case_prod_unfold)
next
  case (2 event s54 i67 s69 polls status)
  then show ?case by (simp add: Let_def option.map_comp comp_def case_prod_unfold)
next
  case (3 alive polls status)
  then show ?case by simp
next
  case (4 polls status)
  then show ?case by simp
qed

text \<open>
  C1, as stated, fails: a scenario finishes as INTERRUPTED, then a NonFatalError is
  processed while the engine does not report an interrupt. Line 59 sets the aggregate
  to ERROR without looking at it, so the aggregate drops from INTERRUPTED to ERROR and
  the final status ERROR is below the maximum INTERRUPTED of the observed events. In
  the other order the guard of line 61 keeps the aggregate at ERROR when the scenario
  finishes as INTERRUPTED, and the final status is again below the maximum.
\<close>

theorem aggregate_status_counterexample:
  "event_loop
     [Got (ScenarioFinished 1 0 UNIT_TESTING INTERRUPTED (new_recorder ''GET /users'') 0 None True)
        False False False,
      Got (NonFatalError (Exception ''boom'') UNIT_TESTING ''GET /items'' True) False False False,
      Empty [False]] SUCCESS
   = Some (ERROR,
       [ScenarioFinished 1 0 UNIT_TESTING INTERRUPTED (new_recorder ''GET /users'') 0 None True,
        NonFatalError (Exception ''boom'') UNIT_TESTING ''GET /items'' True])
   \<and> max_severity
       [ScenarioFinished 1 0 UNIT_TESTING INTERRUPTED (new_recorder ''GET /users'') 0 None True,
        NonFatalError (Exception ''boom'') UNIT_TESTING ''GET /items'' True] = INTERRUPTED
   \<and> severity (update_status INTERRUPTED
         (NonFatalError (Exception ''boom'') UNIT_TESTING ''GET /items'' True) False)
       < severity INTERRUPTED
   \<and> event_loop
       [Got (NonFatalError (Exception ''boom'') UNIT_TESTING ''GET /items'' True) False False False,
        Got (ScenarioFinished 1 0 UNIT_TESTING INTERRUPTED (new_recorder ''GET /users'') 0 None True)
          False False False,
        Empty [False]] SUCCESS
     = Some (ERROR,
         [NonFatalError (Exception ''boom'') UNIT_TESTING ''GET /items'' True,
          ScenarioFinished 1 0 UNIT_TESTING INTERRUPTED (new_recorder ''GET /users'') 0 None True])
   \<and> max_severity
         [NonFatalError (Exception ''boom'') UNIT_TESTING ''GET /items'' True,
          ScenarioFinished 1 0 UNIT_TESTING INTERRUPTED (new_recorder ''GET /users'') 0 None True]
       = INTERRUPTED"
  by (simp add: update_status_def)

text \<open>
  C1, amended. Processing an event never lowers the severity of the aggregate, except
  possibly when a NonFatalError is processed while the aggregate is INTERRUPTED and the
  engine does not report an interrupt in that cycle (nothing is said about that case).
  Whenever the engine reports an interrupt in a polling cycle, the aggregate after the
  cycle is INTERRUPTED whatever the event was, so INTERRUPTED takes precedence over
  ERROR within a cycle. For a phase in which no interrupt is reported and no scenario
  finishes as INTERRUPTED, the final aggregate equals the maximum-severity status among
  the observed ScenarioFinished and NonFatalError events.
\<close>

theorem aggregate_status_by_design:
  "(status \<noteq> INTERRUPTED \<or> is_interrupted \<or> \<not> is_NonFatalError event
      \<longrightarrow> severity status \<le> severity (update_status status event is_interrupted))
   \<and> update_status status event True = INTERRUPTED
   \<and> (event_loop polls SUCCESS = Some (final, evs) \<and> list_all no_interrupt polls
      \<longrightarrow> final = max_severity evs)"
  using update_status_mono[of status is_interrupted event]
    update_status_interrupted[of status event]
    event_loop_max[of polls SUCCESS final evs]
  by simp

theorem aggregate_status_by_design_witness:
  "severity FAILURE \<le> severity (update_status FAILURE
       (NonFatalError (Exception ''boom'') UNIT_TESTING ''GET /items'' True) False)
   \<and> update_status FAILURE (NonFatalError (Exception ''boom'') UNIT_TESTING ''GET /items'' True) True
       = INTERRUPTED
   \<and> event_loop
       [Got (ScenarioFinished 1 0 UNIT_TESTING FAILURE (new_recorder ''GET /users'') 0 None True)
          False False False,
        Got (NonFatalError (Exception ''boom'') UNIT_TESTING ''GET /items'' True) False False False,
        Got (ScenarioFinished 2 0 UNIT_TESTING SUCCESS (new_recorder ''GET /ok'') 0 None True)
          False False False,
        Empty [False]] SUCCESS
     = Some (ERROR,
        [ScenarioFinished 1 0 UNIT_TESTING FAILURE (new_recorder ''GET /users'') 0 None True,
         NonFatalError (Exception ''boom'') UNIT_TESTING ''GET /items'' True,
         ScenarioFinished 2 0 UNIT_TESTING SUCCESS (new_recorder ''GET /ok'') 0 None True])
   \<and> ERROR = max_severity
        [ScenarioFinished 1 0 UNIT_TESTING FAILURE (new_recorder ''GET /users'') 0 None True,
         NonFatalError (Exception ''boom'') UNIT_TESTING ''GET /items'' True,
         ScenarioFinished 2 0 UNIT_TESTING SUCCESS (new_recorder ''GET /ok'') 0 None True]"
  using aggregate_status_by_design
    [of FAILURE False "NonFatalError (Exception ''boom'') UNIT_TESTING ''GET /items'' True"
      "[Got (ScenarioFinished 1 0 UNIT_TESTING FAILURE (new_recorder ''GET /users'') 0 None True)
          False False False,
        Got (NonFatalError (Exception ''boom'') UNIT_TESTING ''GET /items'' True) False False False,
        Got (ScenarioFinished 2 0 UNIT_TESTING SUCCESS (new_recorder ''GET /ok'') 0 None True)
          False False False,
        Empty [False]]"
      ERROR
      "[ScenarioFinished 1 0 UNIT_TESTING FAILURE (new_recorder ''GET /users'') 0 None True,
         NonFatalError (Exception ''boom'') UNIT_TESTING ''GET /items'' True,
         ScenarioFinished 2 0 UNIT_TESTING SUCCESS (new_recorder ''GET /ok'') 0 None True]"]
  by (simp add: update_status_def)

text \<open>
  C3. Whenever the loop's exit condition is eventually observed (the queue is empty
  and every worker has exited, the stop flag is read as set, or the signal arrives),
  and the queue only carries what workers put there, \<open>execute\<close> returns, and what it
  emits is one SuiteStarted, the forwarded events, then one SuiteFinished immediately
  followed by one PhaseFinished, both with the final aggregate status; none of the
  three kinds occurs a second time. The liveness list of an \<open>Empty\<close> pass has one
  flag per worker and may have any length, so this holds for every worker count.
\<close>

theorem execute_suite_events:
  assumes "list_ex exits polls" and "list_all from_worker polls"
  shows "\<exists>status evs out.
           execute suite_id phase polls = Some out
         \<and> out = SuiteStarted suite_id (name phase) # evs
                  @ [SuiteFinished suite_id (name phase) status, PhaseFinished phase status]
         \<and> final_status polls = Some status
         \<and> length (filter is_SuiteStarted out) = 1
         \<and> length (filter is_SuiteFinished out) = 1
         \<and> length (filter is_PhaseFinished out) = 1"
proof -
  from assms(1) obtain st evs where run: "event_loop polls SUCCESS = Some (st, evs)"
    using event_loop_exits by blast
  from event_loop_from_worker[OF run assms(2)]
  have none: "filter is_SuiteStarted evs = []" "filter is_SuiteFinished evs = []"
    "filter is_PhaseFinished evs = []" by simp_all
  show ?thesis
    using run none by (simp add: execute_def final_status_def)
qed

theorem execute_suite_events_witness:
  "list_ex exits [Got (ScenarioStarted 1 ''GET /users'' UNIT_TESTING 0) False False False,
                  Empty [True, False], Empty [False, False]]
   \<and> list_all from_worker [Got (ScenarioStarted 1 ''GET /users'' UNIT_TESTING 0) False False False,
                  Empty [True, False], Empty [False, False]]
   \<and> execute 0 (Phase UNIT_TESTING)
        [Got (ScenarioStarted 1 ''GET /users'' UNIT_TESTING 0) False False False,
         Empty [True, False], Empty [False, False]]
      = Some [SuiteStarted 0 UNIT_TESTING, ScenarioStarted 1 ''GET /users'' UNIT_TESTING 0,
              SuiteFinished 0 UNIT_TESTING SUCCESS, PhaseFinished (Phase UNIT_TESTING) SUCCESS]"
  using execute_suite_events
    [of "[Got (ScenarioStarted 1 ''GET /users'' UNIT_TESTING 0) False False False,
          Empty [True, False], Empty [False, False]]" 0 "Phase UNIT_TESTING"]
  by (simp add: execute_def update_status_def)

text \<open>
  C6, as stated, fails: a worker puts the start and the failed finish of a scenario on
  the queue and exits; then the stop flag is set; then the coordinator takes the first
  event off the queue, reads the flag as set at line 54 and leaves the loop before
  line 56. Neither event is yielded, and the phase ends as SUCCESS.
\<close>

theorem forwarded_counterexample:
  "execute 0 (Phase UNIT_TESTING)
     (observe
        [WorkerPut (ScenarioStarted 1 ''GET /users'' UNIT_TESTING 0),
         WorkerPut (ScenarioFinished 1 0 UNIT_TESTING FAILURE (new_recorder ''GET /users'') 0 None True),
         WorkerExit 0, EngineStop, CoordinatorPoll]
        \<lparr>events_queue = [], is_stopped = False, workers_alive = [True]\<rparr>)
   = Some [SuiteStarted 0 UNIT_TESTING, SuiteFinished 0 UNIT_TESTING SUCCESS,
           PhaseFinished (Phase UNIT_TESTING) SUCCESS]
   \<and> put_before_stop
        [WorkerPut (ScenarioStarted 1 ''GET /users'' UNIT_TESTING 0),
         WorkerPut (ScenarioFinished 1 0 UNIT_TESTING FAILURE (new_recorder ''GET /users'') 0 None True),
         WorkerExit 0, EngineStop, CoordinatorPoll]
     = [ScenarioStarted 1 ''GET /users'' UNIT_TESTING 0,
        ScenarioFinished 1 0 UNIT_TESTING FAILURE (new_recorder ''GET /users'') 0 None True]"
  by (simp add: execute_def)

text \<open>
  C6, amended. Every event the coordinator takes off the queue while it reads the stop
  flag as unset at line 54 is yielded, after the events taken before it and in queue
  order. An event taken off the queue when the flag is read as set is not yielded: the
  loop ends there, and the phase closes with SuiteFinished and PhaseFinished right
  after the events yielded so far.
\<close>

theorem forwarded_until_stop_observed:
  assumes "list_all (\<lambda>p. \<not> exits p) pre"
  shows "(stopped_69 \<or> list_ex exits post \<longrightarrow>
            (\<exists>out. execute suite_id phase (pre @ Got event False interrupted_67 stopped_69 # post)
                     = Some out
                  \<and> prefix (SuiteStarted suite_id (name phase) # dequeued pre @ [event]) out))
       \<and> (\<exists>status. execute suite_id phase (pre @ Got event True interrupted_67 stopped_69 # post)
            = Some (SuiteStarted suite_id (name phase) # dequeued pre
                    @ [SuiteFinished suite_id (name phase) status, PhaseFinished phase status]))"
proof (intro conjI impI)
  let ?s = "foldl (\<lambda>s p. case p of Got e _ i _ \<Rightarrow> update_status s e i | _ \<Rightarrow> s) SUCCESS pre"
  let ?rest = "Got event False interrupted_67 stopped_69 # post"
  assume "stopped_69 \<or> list_ex exits post"
  then have "list_ex exits ?rest" by auto
  then obtain st evs where r: "event_loop ?rest ?s = Some (st, evs)"
    using event_loop_exits by blast
  then obtain evs' where e: "evs = event # evs'"
    by (auto simp: Let_def split: if_splits)
  have "event_loop (pre @ ?rest) SUCCESS = Some (st, dequeued pre @ evs)"
    using event_loop_append[OF assms, of ?rest SUCCESS] r by simp
  then show "\<exists>out. execute suite_id phase (pre @ ?rest) = Some out
                  \<and> prefix (SuiteStarted suite_id (name phase) # dequeued pre @ [event]) out"
    using e by (simp add: execute_def)
next
  show "\<exists>status. execute suite_id phase (pre @ Got event True interrupted_67 stopped_69 # post)
            = Some (SuiteStarted suite_id (name phase) # dequeued pre
                    @ [SuiteFinished suite_id (name phase) status, PhaseFinished phase status])"
    using event_loop_append[OF assms, of "Got event True interrupted_67 stopped_69 # post" SUCCESS]
    by (simp add: execute_def)
qed

theorem forwarded_until_stop_observed_witness:
  "list_all (\<lambda>p. \<not> exits p)
     [Got (ScenarioStarted 1 ''GET /users'' UNIT_TESTING 0) False False False, Empty [True]]
   \<and> execute 0 (Phase UNIT_TESTING)
       ([Got (ScenarioStarted 1 ''GET /users'' UNIT_TESTING 0) False False False, Empty [True]]
        @ Got (ScenarioFinished 1 0 UNIT_TESTING FAILURE (new_recorder ''GET /users'') 0 None True)
            False False True # [])
     = Some [SuiteStarted 0 UNIT_TESTING, ScenarioStarted 1 ''GET /users'' UNIT_TESTING 0,
             ScenarioFinished 1 0 UNIT_TESTING FAILURE (new_recorder ''GET /users'') 0 None True,
             SuiteFinished 0 UNIT_TESTING FAILURE, PhaseFinished (Phase UNIT_TESTING) FAILURE]
   \<and> execute 0 (Phase UNIT_TESTING)
       ([Got (ScenarioStarted 1 ''GET /users'' UNIT_TESTING 0) False False False, Empty [True]]
        @ Got (ScenarioFinished 1 0 UNIT_TESTING FAILURE (new_recorder ''GET /users'') 0 None True)
            True False True # [])
     = Some [SuiteStarted 0 UNIT_TESTING, ScenarioStarted 1 ''GET /users'' UNIT_TESTING 0,
             SuiteFinished 0 UNIT_TESTING SUCCESS, PhaseFinished (Phase UNIT_TESTING) SUCCESS]"
  using forwarded_until_stop_observed
    [of "[Got (ScenarioStarted 1 ''GET /users'' UNIT_TESTING 0) False False False, Empty [True]]"
        True "[]" 0 "Phase UNIT_TESTING"
        "ScenarioFinished 1 0 UNIT_TESTING FAILURE (new_recorder ''GET /users'') 0 None True" False]
  by (simp add: execute_def update_status_def)

section \<open>Properties of the worker\<close>

lemma upper_get: "upper ''get'' = ''GET''"
  by code_simp

lemma worker_loop_stopped:
  "stopped_at_check p \<Longrightarrow>
   worker_loop create_test run_test suite_id fresh (pre @ p # post)
     = worker_loop create_test run_test suite_id fresh pre"
proof (induction pre arbitrary: fresh)
  case Nil
  then show ?case by simp
next
  case (Cons a pre)
  then show ?case
    by (simp split: result.splits option.splits prod.splits sum.splits)
qed

text \<open>
  C2, as stated, fails: for a schema error whose method is not known the worker takes
  the \<^verbatim>\<open>else\<close> branch of line 146 and puts one event on the queue, the NonFatalError
  not related to an operation; no ScenarioStarted and no ScenarioFinished.
\<close>

theorem schema_error_three_events_counterexample:
  "worker_task (\<lambda>operation::nat. None) (\<lambda>operation. ([], None)) 0 7
     [\<lparr>stopped_at_check = False, stopped_at_pull = False,
       pulled = Err \<lparr>http_method = None, full_path = Some ''/users''\<rparr>\<rparr>]
   = ([NonFatalError (InvalidSchema \<lparr>http_method = None, full_path = Some ''/users''\<rparr>)
         UNIT_TESTING ''/users'' False], None)"
  by (simp add: worker_task_def on_schema_error_def)

text \<open>
  C2, amended. For every item pulled by a worker that is a schema error: if the
  error's method is known (not \<^verbatim>\<open>None\<close>, not empty), the worker emits exactly three
  events in order, ScenarioStarted, NonFatalError tagged as related to an operation,
  ScenarioFinished with status ERROR carrying an empty recorder and marked final, and
  goes on with its loop; if the method is not known and the full path is, it emits
  exactly one event, a NonFatalError tagged as not related to an operation and labelled
  with the full path, and goes on with its loop.
\<close>

theorem schema_error_events:
  assumes "\<not> stopped_at_check p" and "pulled p = Err error"
  shows "(http_method error = Some m \<and> m \<noteq> [] \<longrightarrow>
            (\<exists>rest r. worker_loop create_test run_test suite_id fresh (p # ps)
               = ([ScenarioStarted fresh (upper m @ '' '' @ format_optional (full_path error))
                     UNIT_TESTING suite_id,
                   NonFatalError (InvalidSchema error) UNIT_TESTING
                     (upper m @ '' '' @ format_optional (full_path error)) True,
                   ScenarioFinished fresh suite_id UNIT_TESTING ERROR
                     \<lparr>label = ''Error'', cases = []\<rparr> 0 None True] @ rest, r)
             \<and> worker_loop create_test run_test suite_id (Suc fresh) ps = (rest, r)))
       \<and> ((http_method error = None \<or> http_method error = Some []) \<and> full_path error = Some path \<longrightarrow>
            (\<exists>rest r. worker_loop create_test run_test suite_id fresh (p # ps)
               = ([NonFatalError (InvalidSchema error) UNIT_TESTING path False] @ rest, r)
             \<and> worker_loop create_test run_test suite_id (Suc fresh) ps = (rest, r)))"
  using assms
  by (auto simp: on_schema_error_def new_recorder_def Let_def split: prod.splits)

theorem schema_error_events_witness:
  "\<not> stopped_at_check \<lparr>stopped_at_check = False, stopped_at_pull = False,
       pulled = Err \<lparr>http_method = Some ''get'', full_path = Some ''/users''\<rparr> :: nat result\<rparr>
   \<and> worker_loop (\<lambda>operation::nat. None) (\<lambda>operation. ([], None)) 0 7
       [\<lparr>stopped_at_check = False, stopped_at_pull = False,
         pulled = Err \<lparr>http_method = Some ''get'', full_path = Some ''/users''\<rparr>\<rparr>]
     = ([ScenarioStarted 7 ''GET /users'' UNIT_TESTING 0,
         NonFatalError (InvalidSchema \<lparr>http_method = Some ''get'', full_path = Some ''/users''\<rparr>)
           UNIT_TESTING ''GET /users'' True,
         ScenarioFinished 7 0 UNIT_TESTING ERROR \<lparr>label = ''Error'', cases = []\<rparr> 0 None True],
        None)
   \<and> worker_loop (\<lambda>operation::nat. None) (\<lambda>operation. ([], None)) 0 7
       [\<lparr>stopped_at_check = False, stopped_at_pull = False,
         pulled = Err \<lparr>http_method = Some '''', full_path = Some ''/users''\<rparr>\<rparr>]
     = ([NonFatalError (InvalidSchema \<lparr>http_method = Some '''', full_path = Some ''/users''\<rparr>)
           UNIT_TESTING ''/users'' False], None)"
  using schema_error_events
    [of "\<lparr>stopped_at_check = False, stopped_at_pull = False,
          pulled = Err \<lparr>http_method = Some ''get'', full_path = Some ''/users''\<rparr> :: nat result\<rparr>"
        "\<lparr>http_method = Some ''get'', full_path = Some ''/users''\<rparr>" "''get''"
        "\<lambda>operation::nat. None" "\<lambda>operation. ([], None)" 0 7 "[]" "''/users''"]
    schema_error_events
    [of "\<lparr>stopped_at_check = False, stopped_at_pull = False,
          pulled = Err \<lparr>http_method = Some '''', full_path = Some ''/users''\<rparr> :: nat result\<rparr>"
        "\<lparr>http_method = Some '''', full_path = Some ''/users''\<rparr>" "''get''"
        "\<lambda>operation::nat. None" "\<lambda>operation. ([], None)" 0 7 "[]" "''/users''"]
  by (simp add: upper_get)

text \<open>
  C5, as stated, fails: the worker reads the flag as unset in its loop condition, the
  flag is set before the worker calls \<^verbatim>\<open>next_operation\<close>, and the worker still pulls
  the item, which was not dispatched when the flag was set, and emits its
  ScenarioStarted. Only at the next loop condition does it read the flag and exit.
\<close>

theorem stop_flag_counterexample:
  "stopped_at_pull \<lparr>stopped_at_check = False, stopped_at_pull = True,
       pulled = Err \<lparr>http_method = Some ''get'', full_path = Some ''/users''\<rparr> :: nat result\<rparr>
   \<and> worker_task (\<lambda>operation::nat. None) (\<lambda>operation. ([], None)) 0 7
     [\<lparr>stopped_at_check = False, stopped_at_pull = True,
       pulled = Err \<lparr>http_method = Some ''get'', full_path = Some ''/users''\<rparr>\<rparr>,
      \<lparr>stopped_at_check = True, stopped_at_pull = True,
       pulled = Err \<lparr>http_method = Some ''get'', full_path = Some ''/items''\<rparr>\<rparr>]
   = ([ScenarioStarted 7 ''GET /users'' UNIT_TESTING 0,
       NonFatalError (InvalidSchema \<lparr>http_method = Some ''get'', full_path = Some ''/users''\<rparr>)
         UNIT_TESTING ''GET /users'' True,
       ScenarioFinished 7 0 UNIT_TESTING ERROR \<lparr>label = ''Error'', cases = []\<rparr> 0 None True],
      None)"
  by (simp add: worker_task_def on_schema_error_def new_recorder_def upper_get Let_def)

text \<open>
  C5, amended. A worker that reads the stop flag as set in its loop condition exits
  its loop without pulling: it emits nothing for that item or any later one, so what
  it has emitted is what the items before gave. An operation the worker has pulled is
  run to its end: every event \<open>run_test\<close> yields for it, its terminating
  ScenarioFinished included, is put on the queue without the flag being read in
  between. (A worker that read the flag as unset may still pull and run one more item
  when the flag is set right after.)
\<close>

theorem stop_flag_at_loop_head:
  "(stopped_at_check p \<longrightarrow>
      worker_loop create_test run_test suite_id fresh (pre @ p # post)
        = worker_loop create_test run_test suite_id fresh pre)
   \<and> (\<not> stopped_at_check q \<and> pulled q = Ok operation \<and> create_test operation = None \<longrightarrow>
        prefix (fst (run_test operation))
          (fst (worker_loop create_test run_test suite_id fresh (q # post))))"
  using worker_loop_stopped[of p create_test run_test suite_id fresh pre post]
  by (auto split: prod.splits option.splits)

theorem stop_flag_at_loop_head_witness:
  "stopped_at_check (\<lparr>stopped_at_check = True, stopped_at_pull = True, pulled = Ok 2\<rparr> :: nat pull)
   \<and> worker_loop (\<lambda>operation::nat. None)
       (\<lambda>operation. ([ScenarioStarted operation ''GET /users'' UNIT_TESTING 0,
                       ScenarioFinished operation 0 UNIT_TESTING SUCCESS
                         (new_recorder ''GET /users'') 0 None True], None)) 0 7
       ([\<lparr>stopped_at_check = False, stopped_at_pull = False, pulled = Ok 1\<rparr>]
        @ \<lparr>stopped_at_check = True, stopped_at_pull = True, pulled = Ok 2\<rparr>
        # [\<lparr>stopped_at_check = False, stopped_at_pull = True, pulled = Ok 3\<rparr>])
     = ([ScenarioStarted 1 ''GET /users'' UNIT_TESTING 0,
         ScenarioFinished 1 0 UNIT_TESTING SUCCESS (new_recorder ''GET /users'') 0 None True],
        None)
   \<and> prefix [ScenarioStarted 1 ''GET /users'' UNIT_TESTING 0,
         ScenarioFinished 1 0 UNIT_TESTING SUCCESS (new_recorder ''GET /users'') 0 None True]
       (fst (worker_loop (\<lambda>operation::nat. None)
         (\<lambda>operation. ([ScenarioStarted operation ''GET /users'' UNIT_TESTING 0,
                       ScenarioFinished operation 0 UNIT_TESTING SUCCESS
                         (new_recorder ''GET /users'') 0 None True], None)) 0 7
         (\<lparr>stopped_at_check = False, stopped_at_pull = False, pulled = Ok 1\<rparr>
          # [\<lparr>stopped_at_check = False, stopped_at_pull = True, pulled = Ok 3\<rparr>])))"
  using stop_flag_at_loop_head
    [of "\<lparr>stopped_at_check = True, stopped_at_pull = True, pulled = Ok 2\<rparr>"
        "\<lambda>operation::nat. None"
        "\<lambda>operation. ([ScenarioStarted operation ''GET /users'' UNIT_TESTING 0,
                       ScenarioFinished operation 0 UNIT_TESTING SUCCESS
                         (new_recorder ''GET /users'') 0 None True], None)" 0 7
        "[\<lparr>stopped_at_check = False, stopped_at_pull = False, pulled = Ok 1\<rparr>]"
        "[\<lparr>stopped_at_check = False, stopped_at_pull = True, pulled = Ok 3\<rparr>]"
        "\<lparr>stopped_at_check = False, stopped_at_pull = False, pulled = Ok 1\<rparr>" 1]
  by simp

text \<open>
  C7, as stated, fails: \<^verbatim>\<open>worker_task\<close> has one handler, for \<^verbatim>\<open>KeyboardInterrupt\<close>. An
  exception raised while the test for an operation is created, or the
  \<^verbatim>\<open>AssertionError\<close> of line 147 for a schema error with neither method nor path,
  leaves the worker, and no NonFatalError event is emitted for it.
\<close>

theorem worker_uncaught_counterexample:
  "worker_task (\<lambda>operation::nat. Some (Exception ''cannot build a test''))
       (\<lambda>operation. ([], None)) 0 7
     [\<lparr>stopped_at_check = False, stopped_at_pull = False, pulled = Ok 1\<rparr>]
   = ([], Some (Exception ''cannot build a test''))
   \<and> worker_task (\<lambda>operation::nat. None) (\<lambda>operation. ([], None)) 0 7
     [\<lparr>stopped_at_check = False, stopped_at_pull = False,
       pulled = Err \<lparr>http_method = None, full_path = None\<rparr>\<rparr>]
   = ([], Some AssertionError)"
  by (simp add: worker_task_def on_schema_error_def)

text \<open>
  C7, amended. A \<^verbatim>\<open>KeyboardInterrupt\<close> raised inside the worker's loop never leaves the
  worker: it is converted into exactly one Interrupted event, put on the queue after
  the events emitted so far. Any other exception raised inside the loop leaves the
  worker as it is, and the worker adds no event for it; so it is for an exception
  raised while the test of a pulled operation is created, and for one that ends its
  run after some events.
\<close>

theorem worker_task_exceptions:
  "(snd (worker_loop create_test run_test suite_id fresh pulls) = Some KeyboardInterrupt \<longrightarrow>
      worker_task create_test run_test suite_id fresh pulls
        = (fst (worker_loop create_test run_test suite_id fresh pulls) @ [Interrupted UNIT_TESTING],
           None))
   \<and> (snd (worker_loop create_test run_test suite_id fresh pulls) = Some e \<and> e \<noteq> KeyboardInterrupt \<longrightarrow>
      worker_task create_test run_test suite_id fresh pulls
        = (fst (worker_loop create_test run_test suite_id fresh pulls), Some e))
   \<and> snd (worker_task create_test run_test suite_id fresh pulls) \<noteq> Some KeyboardInterrupt
   \<and> (\<not> stopped_at_check p \<and> pulled p = Ok operation \<and> create_test operation = Some e' \<longrightarrow>
      worker_task create_test run_test suite_id fresh (p # ps)
        = (if e' = KeyboardInterrupt then ([Interrupted UNIT_TESTING], None) else ([], Some e')))
   \<and> (\<not> stopped_at_check p \<and> pulled p = Ok operation \<and> create_test operation = None
        \<and> run_test operation = (evs, Some e') \<longrightarrow>
      worker_task create_test run_test suite_id fresh (p # ps)
        = (if e' = KeyboardInterrupt then (evs @ [Interrupted UNIT_TESTING], None)
           else (evs, Some e')))"
  by (cases e; cases e')
    (auto simp: worker_task_def split: prod.splits option.splits exn.splits)

theorem worker_task_exceptions_witness:
  "worker_task (\<lambda>operation::nat. None)
       (\<lambda>operation. ([ScenarioStarted operation ''GET /users'' UNIT_TESTING 0],
                      Some KeyboardInterrupt)) 0 7
     [\<lparr>stopped_at_check = False, stopped_at_pull = False, pulled = Ok 1\<rparr>]
   = ([ScenarioStarted 1 ''GET /users'' UNIT_TESTING 0, Interrupted UNIT_TESTING], None)
   \<and> worker_task (\<lambda>operation::nat. None)
       (\<lambda>operation. ([ScenarioStarted operation ''GET /users'' UNIT_TESTING 0],
                      Some (Exception ''boom''))) 0 7
     [\<lparr>stopped_at_check = False, stopped_at_pull = False, pulled = Ok 1\<rparr>]
   = ([ScenarioStarted 1 ''GET /users'' UNIT_TESTING 0], Some (Exception ''boom''))
   \<and> worker_task (\<lambda>operation::nat. Some (Exception ''cannot build a test''))
       (\<lambda>operation. ([], None)) 0 7
     [\<lparr>stopped_at_check = False, stopped_at_pull = False, pulled = Ok 1\<rparr>]
   = ([], Some (Exception ''cannot build a test''))"
  using worker_task_exceptions
    [where create_test = "\<lambda>operation::nat. None"
       and run_test = "\<lambda>operation. ([ScenarioStarted operation ''GET /users'' UNIT_TESTING 0],
                      Some KeyboardInterrupt)"
       and suite_id = 0 and fresh = 7
       and pulls = "[\<lparr>stopped_at_check = False, stopped_at_pull = False, pulled = Ok 1\<rparr>]"
       and e = AssertionError
       and p = "\<lparr>stopped_at_check = False, stopped_at_pull = False, pulled = Ok 1\<rparr>"
       and operation = 1 and ps = "[]" and e' = KeyboardInterrupt
       and evs = "[ScenarioStarted 1 ''GET /users'' UNIT_TESTING 0]"]
    worker_task_exceptions
    [where create_test = "\<lambda>operation::nat. None"
       and run_test = "\<lambda>operation. ([ScenarioStarted operation ''GET /users'' UNIT_TESTING 0],
                      Some (Exception ''boom''))"
       and suite_id = 0 and fresh = 7
       and pulls = "[\<lparr>stopped_at_check = False, stopped_at_pull = False, pulled = Ok 1\<rparr>]"
       and e = "Exception ''boom''"
       and p = "\<lparr>stopped_at_check = False, stopped_at_pull = False, pulled = Ok 1\<rparr>"
       and operation = 1 and ps = "[]" and e' = "Exception ''boom''"
       and evs = "[ScenarioStarted 1 ''GET /users'' UNIT_TESTING 0]"]
    worker_task_exceptions
    [where create_test = "\<lambda>operation::nat. Some (Exception ''cannot build a test'')"
       and run_test = "\<lambda>operation. ([], None)"
       and suite_id = 0 and fresh = 7
       and pulls = "[\<lparr>stopped_at_check = False, stopped_at_pull = False, pulled = Ok 1\<rparr>]"
       and e = "Exception ''cannot build a test''"
       and p = "\<lparr>stopped_at_check = False, stopped_at_pull = False, pulled = Ok 1\<rparr>"
       and operation = 1 and ps = "[]" and e' = "Exception ''cannot build a test''"
       and evs = "[]"]
  by simp

section \<open>Properties of the task producer\<close>

lemma deliveries_results:
  "map snd (deliveries callers items)
     = map Some (take (length callers) items) @ replicate (length callers - length items) None"
proof (induction callers arbitrary: items)
  case Nil
  then show ?case by simp
next
  case (Cons w ws)
  show ?case
  proof (cases items)
    case Nil
    with Cons[of "[]"] show ?thesis by (simp add: next_operation_def)
  next
    case (Cons x xs)
    with Cons.IH[of xs] show ?thesis by (simp add: next_operation_def)
  qed
qed

lemma deliveries_callers: "map fst (deliveries callers items) = callers"
  by (induction callers arbitrary: items) (auto split: prod.splits)

text \<open>
  C4. For a sequence of K items and any interleaving of calls by any number of workers
  (the list of callers, in the order in which the calls enter the exclusive section):
  the i-th call returns the i-th item as long as there is one, so each item is
  delivered to exactly one caller, with no duplicate and no gap; every call after the
  K-th returns none, and a call on the exhausted producer returns none and leaves it
  exhausted.
\<close>

theorem producer_exactly_once:
  "map fst (deliveries callers items) = callers
   \<and> map snd (deliveries callers items)
       = map Some (take (length callers) items) @ replicate (length callers - length items) None
   \<and> next_operation ([] :: 'a list) = (None, [])"
  using deliveries_results[of callers items] deliveries_callers[of callers items]
  by (simp add: next_operation_def)

section \<open>Properties of the resource path matcher\<close>

lemma segments_prefix_iff:
  "segments_prefix ls rs \<longleftrightarrow>
     length ls \<le> length rs \<and> (\<forall>i < length ls. segment_eq (ls ! i) (rs ! i))"
proof (induction ls rs rule: segments_prefix.induct)
  case (1 rs)
  then show ?case by simp
next
  case (2 l ls)
  then show ?case by simp
next
  case (3 l ls r rs)
  then show ?case by (auto simp: less_Suc_eq_0_disj)
qed

text \<open>The rows of \<^verbatim>\<open>test_is_prefix_operation\<close> that expect true, and those that expect false.\<close>

lemma is_prefix_operation_true_rows:
  "is_prefix_operation \<lparr>template = ''/users/123'', variables = []\<rparr>
                       \<lparr>template = ''/users/123'', variables = []\<rparr>"
  "is_prefix_operation \<lparr>template = ''/users/{id}'', variables = [(''id'', StrValue ''123'')]\<rparr>
                       \<lparr>template = ''/users/{user_id}'', variables = [(''user_id'', StrValue ''123'')]\<rparr>"
  "is_prefix_operation \<lparr>template = ''/user/{id}'', variables = [(''id'', StrValue ''123'')]\<rparr>
                       \<lparr>template = ''/users/{id}'', variables = [(''id'', StrValue ''123'')]\<rparr>"
  "is_prefix_operation \<lparr>template = ''/users/{id}'', variables = [(''id'', StrValue ''123'')]\<rparr>
                       \<lparr>template = ''/user/{id}'', variables = [(''id'', StrValue ''123'')]\<rparr>"
  "is_prefix_operation \<lparr>template = ''/users/{id}/'', variables = [(''id'', StrValue ''123'')]\<rparr>
                       \<lparr>template = ''/users/{id}'', variables = [(''id'', StrValue ''123'')]\<rparr>"
  "is_prefix_operation \<lparr>template = ''/users/{id}'', variables = [(''id'', StrValue ''123'')]\<rparr>
                       \<lparr>template = ''/users/{id}/'', variables = [(''id'', StrValue ''123'')]\<rparr>"
  "is_prefix_operation \<lparr>template = ''/users/'', variables = []\<rparr>
                       \<lparr>template = ''/users'', variables = []\<rparr>"
  "is_prefix_operation \<lparr>template = ''/users'', variables = []\<rparr>
                       \<lparr>template = ''/users/'', variables = []\<rparr>"
  "is_prefix_operation \<lparr>template = '''', variables = []\<rparr> \<lparr>template = '''', variables = []\<rparr>"
  "is_prefix_operation \<lparr>template = '''', variables = []\<rparr> \<lparr>template = ''/'', variables = []\<rparr>"
  "is_prefix_operation \<lparr>template = ''/'', variables = []\<rparr> \<lparr>template = '''', variables = []\<rparr>"
  "is_prefix_operation \<lparr>template = ''/users/{id}'', variables = [(''id'', StrValue ''123'')]\<rparr>
                       \<lparr>template = ''/users/{id}/details'', variables = [(''id'', StrValue ''123'')]\<rparr>"
  "is_prefix_operation \<lparr>template = ''/users/{id}'', variables = [(''id'', StrValue ''123'')]\<rparr>
                       \<lparr>template = ''/users/{id}/{name}'',
                        variables = [(''id'', StrValue ''123''), (''name'', StrValue ''John'')]\<rparr>"
  "is_prefix_operation \<lparr>template = ''/users/{id}'', variables = [(''id'', StrValue ''123'')]\<rparr>
                       \<lparr>template = ''/users/{id}/{name}/{email}'',
                        variables = [(''id'', StrValue ''123''), (''name'', StrValue ''John''),
                                     (''email'', StrValue ''john@example.com'')]\<rparr>"
  "is_prefix_operation \<lparr>template = ''/users/{id}'', variables = [(''id'', StrValue ''123'')]\<rparr>
                       \<lparr>template = ''/users/{id}/details'', variables = [(''id'', IntValue 123)]\<rparr>"
  "is_prefix_operation \<lparr>template = ''/users/{id}'', variables = [(''id'', IntValue 123)]\<rparr>
                       \<lparr>template = ''/users/{id}/details'', variables = [(''id'', StrValue ''123'')]\<rparr>"
  "is_prefix_operation \<lparr>template = ''/users/{id}'', variables = [(''id'', StrValue ''123'')]\<rparr>
                       \<lparr>template = ''/users/{id}/details/view'', variables = [(''id'', StrValue ''123'')]\<rparr>"
  "is_prefix_operation \<lparr>template = ''/users/{id}'', variables = [(''id'', StrValue ''123'')]\<rparr>
                       \<lparr>template = ''/users/{id}/details/view/edit'',
                        variables = [(''id'', StrValue ''123'')]\<rparr>"
  by code_simp+

lemma is_prefix_operation_false_rows:
  "\<not> is_prefix_operation \<lparr>template = ''/users/123'', variables = []\<rparr>
                         \<lparr>template = ''/users/456'', variables = []\<rparr>"
  "\<not> is_prefix_operation \<lparr>template = ''/users/{id}'', variables = [(''id'', StrValue ''123'')]\<rparr>
                         \<lparr>template = ''/users/{user_id}'', variables = [(''user_id'', StrValue ''456'')]\<rparr>"
  "\<not> is_prefix_operation \<lparr>template = ''/user/{id}'', variables = [(''id'', StrValue ''123'')]\<rparr>
                         \<lparr>template = ''/users/{id}'', variables = [(''id'', StrValue ''456'')]\<rparr>"
  "\<not> is_prefix_operation \<lparr>template = ''/users/{id}'', variables = [(''id'', StrValue ''123'')]\<rparr>
                         \<lparr>template = ''/user/{id}'', variables = [(''id'', StrValue ''456'')]\<rparr>"
  "\<not> is_prefix_operation \<lparr>template = ''/users/{id}/'', variables = [(''id'', StrValue ''123'')]\<rparr>
                         \<lparr>template = ''/users/{id}'', variables = [(''id'', StrValue ''456'')]\<rparr>"
  "\<not> is_prefix_operation \<lparr>template = ''/users/{id}'', variables = [(''id'', StrValue ''123'')]\<rparr>
                         \<lparr>template = ''/users/{id}/'', variables = [(''id'', StrValue ''456'')]\<rparr>"
  "\<not> is_prefix_operation \<lparr>template = ''/users/{id}'', variables = [(''id'', StrValue ''123'')]\<rparr>
                         \<lparr>template = ''/products/{id}'', variables = [(''id'', StrValue ''456'')]\<rparr>"
  "\<not> is_prefix_operation \<lparr>template = ''/users/{id}'', variables = [(''id'', StrValue ''123'')]\<rparr>
                         \<lparr>template = ''/users/{name}'', variables = [(''name'', StrValue ''John'')]\<rparr>"
  "\<not> is_prefix_operation \<lparr>template = ''/users/{id}'', variables = [(''id'', StrValue ''123'')]\<rparr>
                         \<lparr>template = ''/users/{id}/details'', variables = [(''id'', StrValue ''456'')]\<rparr>"
  "\<not> is_prefix_operation \<lparr>template = ''/users/{id}'', variables = [(''id'', StrValue ''123'')]\<rparr>
                         \<lparr>template = ''/users/{id}/details/view'', variables = [(''id'', StrValue ''456'')]\<rparr>"
  "\<not> is_prefix_operation \<lparr>template = ''/users/{id}'', variables = [(''id'', StrValue ''123'')]\<rparr>
                         \<lparr>template = ''/users/{id}/details/view/edit'',
                          variables = [(''id'', StrValue ''456'')]\<rparr>"
  "\<not> is_prefix_operation \<lparr>template = ''/one/two/three/four/{id}'', variables = [(''id'', StrValue ''123'')]\<rparr>
                         \<lparr>template = ''/users/{id}/details'', variables = [(''id'', StrValue ''456'')]\<rparr>"
  by code_simp+

text \<open>
  C8. With both paths resolved (one trailing slash stripped, split into segments,
  each placeholder replaced by the string form of its bound value), the left path is a
  prefix of the right one iff it has at most as many segments and every segment of it
  equals the segment of the right path at the same position, where two segments are
  equal when they match exactly or up to one trailing \<open>s\<close>; a mismatch at any position
  gives false.
\<close>

theorem path_prefix_iff:
  "is_prefix_operation lhs rhs \<longleftrightarrow>
     length (resolve lhs) \<le> length (resolve rhs)
     \<and> (\<forall>i < length (resolve lhs). segment_eq (resolve lhs ! i) (resolve rhs ! i))"
  by (simp add: is_prefix_operation_def segments_prefix_iff)

theorem path_prefix_iff_witness:
  "is_prefix_operation \<lparr>template = ''/users/{id}'', variables = [(''id'', StrValue ''123'')]\<rparr>
                       \<lparr>template = ''/users/{id}/details'', variables = [(''id'', IntValue 123)]\<rparr>
   \<and> resolve \<lparr>template = ''/users/{id}'', variables = [(''id'', StrValue ''123'')]\<rparr>
       = ['''', ''users'', ''123'']
   \<and> resolve \<lparr>template = ''/users/{id}/details'', variables = [(''id'', IntValue 123)]\<rparr>
       = ['''', ''users'', ''123'', ''details'']
   \<and> segment_eq '''' '''' \<and> segment_eq ''users'' ''users'' \<and> segment_eq ''123'' ''123''"
proof -
  have l: "resolve \<lparr>template = ''/users/{id}'', variables = [(''id'', StrValue ''123'')]\<rparr>
       = ['''', ''users'', ''123'']" by code_simp
  have r: "resolve \<lparr>template = ''/users/{id}/details'', variables = [(''id'', IntValue 123)]\<rparr>
       = ['''', ''users'', ''123'', ''details'']" by code_simp
  have e: "\<forall>i < 3. segment_eq (['''', ''users'', ''123''] ! i) (['''', ''users'', ''123'', ''details''] ! i)"
    by (simp add: segment_eq_def less_Suc_eq numeral_3_eq_3)
  show ?thesis
    using path_prefix_iff
      [of "\<lparr>template = ''/users/{id}'', variables = [(''id'', StrValue ''123'')]\<rparr>"
          "\<lparr>template = ''/users/{id}/details'', variables = [(''id'', IntValue 123)]\<rparr>"]
      l r e
    by (simp add: segment_eq_def)
qed

section \<open>Properties of the checks\<close>

lemma digit_char_inj: "d < 10 \<Longrightarrow> d' < 10 \<Longrightarrow> digit_char d = digit_char d' \<longleftrightarrow> d = d'"
proof
  assume a: "d < 10" "d' < 10" and e: "digit_char d = digit_char d'"
  then have "(of_char (digit_char d) :: nat) = of_char (digit_char d')" by simp
  then have "(48 + d) mod 256 = (48 + d') mod 256" by (simp add: digit_char_def)
  with a show "d = d'" by simp
qed simp

lemma digit_char_not_X: "d < 10 \<Longrightarrow> digit_char d \<noteq> CHR ''X''"
proof
  assume a: "d < 10" and e: "digit_char d = CHR ''X''"
  then have "(of_char (digit_char d) :: nat) = of_char (CHR ''X'')" by simp
  then have "(48 + d) mod 256 = 88" by (simp add: digit_char_def)
  with a show False by simp
qed

lemma length_str_of_nat_ge: "10 ^ k \<le> n \<Longrightarrow> k < length (str_of_nat n)"
proof (induction k arbitrary: n)
  case 0
  then show ?case by (subst str_of_nat.simps) simp
next
  case (Suc k)
  then have "10 ^ k \<le> n div 10" by (simp add: less_eq_div_iff_mult_less_eq)
  from Suc.IH[OF this] have "k < length (str_of_nat (n div 10))" .
  moreover have "\<not> n < 10"
  proof
    assume "n < 10"
    moreover have "(10::nat) \<le> 10 ^ Suc k" by simp
    ultimately show False using Suc.prems by simp
  qed
  ultimately show ?case by (subst str_of_nat.simps) simp
qed

lemma str_of_nat_3:
  assumes "100 \<le> n" "n < 1000"
  shows "str_of_nat n = [digit_char (n div 100), digit_char (n div 10 mod 10), digit_char (n mod 10)]"
proof -
  have a: "\<not> n < 10" "\<not> n div 10 < 10" "n div 10 div 10 < 10" using assms by auto
  have b: "n div 10 div 10 = n div 100" by (simp add: div_mult2_eq)
  show ?thesis
    using a b
    by (simp add: str_of_nat.simps[of n] str_of_nat.simps[of "n div 10"]
        str_of_nat.simps[of "n div 100"])
qed

lemma length_str_of_nat_3: "length (str_of_nat n) = 3 \<longleftrightarrow> 100 \<le> n \<and> n < 1000"
proof
  assume l: "length (str_of_nat n) = 3"
  have "\<not> 1000 \<le> n"
  proof
    assume "1000 \<le> n"
    then have "10 ^ 3 \<le> n" by simp
    from length_str_of_nat_ge[OF this] l show False by simp
  qed
  moreover have "100 \<le> n"
  proof (rule ccontr)
    assume "\<not> 100 \<le> n"
    then have "n < 100" by simp
    then have "length (str_of_nat n) \<le> 2"
      by (simp add: str_of_nat.simps[of n] str_of_nat.simps[of "n div 10"])
    with l show False by simp
  qed
  ultimately show "100 \<le> n \<and> n < 1000" by simp
next
  assume "100 \<le> n \<and> n < 1000"
  then show "length (str_of_nat n) = 3" by (simp add: str_of_nat_3)
qed

lemma wildcard_class:
  assumes "d < 10"
  shows "entry_matches [digit_char d, CHR ''X'', CHR ''X''] n
           \<longleftrightarrow> 100 * d \<le> n \<and> n < 100 * d + 100 \<and> 0 < d"
proof (cases "100 \<le> n \<and> n < 1000")
  case True
  then have "n div 100 < 10" by auto
  have "n div 100 = d \<longleftrightarrow> 100 * d \<le> n \<and> n < 100 * d + 100" by auto
  moreover have "0 < n div 100" using True by auto
  ultimately show ?thesis
    using True assms \<open>n div 100 < 10\<close>
    by (auto simp: entry_matches_def str_of_nat_3 digit_char_inj digit_char_not_X)
next
  case False
  then have "length (str_of_nat n) \<noteq> 3" by (simp add: length_str_of_nat_3)
  then have "\<not> entry_matches [digit_char d, CHR ''X'', CHR ''X''] n"
    by (auto simp: entry_matches_def dest: list_all2_lengthD)
  moreover have "\<not> (100 * d \<le> n \<and> n < 100 * d + 100 \<and> 0 < d)"
    using False assms by auto
  ultimately show ?thesis by simp
qed

lemma digit_2: "CHR ''2'' = digit_char 2"
  by code_simp

lemma class_2XX: "entry_matches ''2XX'' n \<longleftrightarrow> 200 \<le> n \<and> n \<le> 299"
  using wildcard_class[of 2 n] by (auto simp: digit_2)

lemma exact_code:
  "CHR ''X'' \<notin> set entry \<Longrightarrow> entry_matches entry n \<longleftrightarrow> entry = str_of_nat n"
proof -
  assume a: "CHR ''X'' \<notin> set entry"
  have "list_all2 (\<lambda>e c. e = CHR ''X'' \<or> e = c) entry s \<longleftrightarrow> list_all2 (=) entry s" for s
    using a
  proof (induction entry arbitrary: s)
    case Nil
    then show ?case by simp
  next
    case (Cons e es)
    then show ?case by (cases s) auto
  qed
  then show ?thesis by (simp add: entry_matches_def list_all2_eq)
qed

lemma rejected_iff:
  "(\<exists>failure. positive_data_acceptance allowed status_code generation_mode = Some failure
               \<and> sublist ''Rejected positive data'' (title failure))
   \<longleftrightarrow> generation_mode = POSITIVE \<and> (\<forall>entry \<in> set allowed. \<not> entry_matches entry status_code)"
  by (auto simp: positive_data_acceptance_def list_ex_iff)

text \<open>The rows of \<^verbatim>\<open>test_positive_data_acceptance\<close>.\<close>

lemma positive_data_acceptance_rows:
  "positive_data_acceptance [''200'', ''400''] 200 POSITIVE = None"
  "positive_data_acceptance [''200'', ''400''] 400 POSITIVE = None"
  "positive_data_acceptance [''200'', ''400''] 300 POSITIVE \<noteq> None"
  "positive_data_acceptance [''2XX'', ''4XX''] 200 POSITIVE = None"
  "positive_data_acceptance [''2XX'', ''4XX''] 299 POSITIVE = None"
  "positive_data_acceptance [''2XX'', ''4XX''] 400 POSITIVE = None"
  "positive_data_acceptance [''2XX'', ''4XX''] 500 POSITIVE \<noteq> None"
  "positive_data_acceptance [''200'', ''201'', ''400'', ''401''] 200 POSITIVE = None"
  "positive_data_acceptance [''200'', ''201'', ''400'', ''401''] 201 POSITIVE = None"
  "positive_data_acceptance [''200'', ''201'', ''400'', ''401''] 400 POSITIVE = None"
  "positive_data_acceptance [''200'', ''201'', ''400'', ''401''] 402 POSITIVE \<noteq> None"
  "positive_data_acceptance [''2XX'', ''3XX'', ''4XX''] 200 POSITIVE = None"
  "positive_data_acceptance [''2XX'', ''3XX'', ''4XX''] 300 POSITIVE = None"
  "positive_data_acceptance [''2XX'', ''3XX'', ''4XX''] 400 POSITIVE = None"
  "positive_data_acceptance [''2XX'', ''3XX'', ''4XX''] 500 POSITIVE \<noteq> None"
  "positive_data_acceptance [''200'', ''400''] 200 NEGATIVE = None"
  "positive_data_acceptance [''200'', ''400''] 400 NEGATIVE = None"
  by code_simp+

text \<open>
  C9. \<open>positive_data_acceptance\<close> raises a failure whose title mentions rejected
  positive data iff the case was generated in POSITIVE mode and the response status
  matches no entry of the allow-list; for a NEGATIVE-mode case it never raises,
  whatever the allow-list. An entry without placeholder matches exactly the status it
  spells; a wildcard class of one leading digit and two \<open>X\<close> matches exactly the
  hundred statuses that start with that digit, so \<open>2XX\<close> matches 200 to 299.
\<close>

theorem positive_data_acceptance_iff:
  "((\<exists>failure. positive_data_acceptance allowed status_code generation_mode = Some failure
               \<and> sublist ''Rejected positive data'' (title failure))
      \<longleftrightarrow> generation_mode = POSITIVE \<and> (\<forall>entry \<in> set allowed. \<not> entry_matches entry status_code))
   \<and> positive_data_acceptance allowed status_code NEGATIVE = None
   \<and> (CHR ''X'' \<notin> set entry \<longrightarrow> (entry_matches entry status_code \<longleftrightarrow> entry = str_of_nat status_code))
   \<and> (d < 10 \<longrightarrow> (entry_matches [digit_char d, CHR ''X'', CHR ''X''] status_code
                    \<longleftrightarrow> 100 * d \<le> status_code \<and> status_code < 100 * d + 100 \<and> 0 < d))
   \<and> (entry_matches ''2XX'' status_code \<longleftrightarrow> 200 \<le> status_code \<and> status_code \<le> 299)"
  using rejected_iff[of allowed status_code generation_mode] exact_code[of entry status_code]
    wildcard_class[of d status_code] class_2XX[of status_code]
  by (simp add: positive_data_acceptance_def)

theorem positive_data_acceptance_iff_witness:
  "\<not> entry_matches ''2XX'' 300 \<and> \<not> entry_matches ''4XX'' 300
   \<and> (\<exists>failure. positive_data_acceptance [''2XX'', ''4XX''] 300 POSITIVE = Some failure
                \<and> sublist ''Rejected positive data'' (title failure))
   \<and> CHR ''X'' \<notin> set ''200'' \<and> entry_matches ''200'' 200
   \<and> (2::nat) < 10 \<and> entry_matches [digit_char 2, CHR ''X'', CHR ''X''] 299"
proof -
  have a: "\<forall>entry \<in> set [''2XX'', ''4XX'']. \<not> entry_matches entry 300" by code_simp
  have b: "str_of_nat 200 = ''200''" by code_simp
  show ?thesis
    using positive_data_acceptance_iff[of "[''2XX'', ''4XX'']" 300 POSITIVE "''200''" 2] a
      positive_data_acceptance_iff[of "[''2XX'', ''4XX'']" 200 POSITIVE "''200''" 2] b
      positive_data_acceptance_iff[of "[''2XX'', ''4XX'']" 299 POSITIVE "''200''" 2]
    by simp
qed

lemma scan_components_iff:
  "scan_components cs seen \<longleftrightarrow>
     (seen \<or> (\<exists>c \<in> set cs. mode c = Some NEGATIVE))
     \<and> (\<forall>c \<in> set cs. mode c = Some NEGATIVE \<longrightarrow> only_extra_keys c)"
  by (induction cs seen rule: scan_components.induct) auto

lemma scan_components_ignores:
  "list_all2 (\<lambda>x y. x = y \<or> (mode x \<noteq> Some NEGATIVE \<and> mode y \<noteq> Some NEGATIVE)) cs ds
   \<Longrightarrow> scan_components cs seen = scan_components ds seen"
  by (induction cs ds arbitrary: seen rule: list_all2_induct) auto

text \<open>The rows of \<^verbatim>\<open>test_has_only_additional_properties_in_non_body_parameters\<close>.\<close>

lemma only_additional_properties_rows:
  "\<not> has_only_additional_properties_in_non_body_parameters (sample_case None [] [] None)"
  "\<not> has_only_additional_properties_in_non_body_parameters (sample_case None [] [] (Some NEGATIVE))"
  "\<not> has_only_additional_properties_in_non_body_parameters
       (sample_case (Some NEGATIVE) [(''key'', JInt 1)] [] None)"
  "\<not> has_only_additional_properties_in_non_body_parameters
       (sample_case (Some NEGATIVE) [(''key'', JInt 1)] [(''X-Key'', JInt 42)] None)"
  "has_only_additional_properties_in_non_body_parameters
       (sample_case (Some NEGATIVE) [(''key'', JInt 5), (''unknown'', JInt 3)] [] None)"
  "has_only_additional_properties_in_non_body_parameters
       (sample_case (Some NEGATIVE) [(''key'', JInt 5), (''unknown'', JInt 3)]
          [(''X-Key'', JInt 42)] None)"
  by code_simp+

text \<open>
  C10. \<open>has_only_additional_properties_in_non_body_parameters\<close> is true iff at least
  one non-body component (query, headers, cookies, path parameters) of the case was
  generated in NEGATIVE mode and, for every negatively generated non-body component,
  the only deviation from its declared schema is the presence of undeclared keys. A
  component that was generated in POSITIVE mode or not at all is ignored: replacing it
  by any other such component does not change the result.
\<close>

theorem only_additional_properties_iff:
  "(has_only_additional_properties_in_non_body_parameters c \<longleftrightarrow>
      (\<exists>x \<in> set (non_body_components c). mode x = Some NEGATIVE)
      \<and> (\<forall>x \<in> set (non_body_components c). mode x = Some NEGATIVE \<longrightarrow> only_extra_keys x))
   \<and> (list_all2 (\<lambda>x y. x = y \<or> (mode x \<noteq> Some NEGATIVE \<and> mode y \<noteq> Some NEGATIVE))
         (non_body_components c) (non_body_components c')
       \<longrightarrow> has_only_additional_properties_in_non_body_parameters c
           = has_only_additional_properties_in_non_body_parameters c')"
  using scan_components_iff[of "non_body_components c" False]
    scan_components_ignores[of "non_body_components c" "non_body_components c'" False]
  by (simp add: has_only_additional_properties_in_non_body_parameters_def)

theorem only_additional_properties_iff_witness:
  "has_only_additional_properties_in_non_body_parameters
       (sample_case (Some NEGATIVE) [(''key'', JInt 5), (''unknown'', JInt 3)] [] None)
   \<and> (\<exists>x \<in> set (non_body_components
          (sample_case (Some NEGATIVE) [(''key'', JInt 5), (''unknown'', JInt 3)] [] None)).
         mode x = Some NEGATIVE)
   \<and> has_only_additional_properties_in_non_body_parameters
       (sample_case (Some NEGATIVE) [(''key'', JInt 5), (''unknown'', JInt 3)]
          [(''X-Key'', JInt 42)] None)"
proof -
  have a: "has_only_additional_properties_in_non_body_parameters
       (sample_case (Some NEGATIVE) [(''key'', JInt 5), (''unknown'', JInt 3)] [] None)"
    by code_simp
  have b: "list_all2 (\<lambda>x y. x = y \<or> (mode x \<noteq> Some NEGATIVE \<and> mode y \<noteq> Some NEGATIVE))
         (non_body_components
            (sample_case (Some NEGATIVE) [(''key'', JInt 5), (''unknown'', JInt 3)] [] None))
         (non_body_components
            (sample_case (Some NEGATIVE) [(''key'', JInt 5), (''unknown'', JInt 3)]
               [(''X-Key'', JInt 42)] None))"
    by (simp add: non_body_components_def sample_case_def)
  show ?thesis
    using only_additional_properties_iff
      [of "sample_case (Some NEGATIVE) [(''key'', JInt 5), (''unknown'', JInt 3)] [] None"
          "sample_case (Some NEGATIVE) [(''key'', JInt 5), (''unknown'', JInt 3)]
             [(''X-Key'', JInt 42)] None"] a b
    by simp
qed

end
